theory Spec2Isabelle
  imports Main "HOL-Library.Word"
begin

unbundle bit_operations_syntax

section \<open>logFUSE: a logging passthrough filesystem\<close>

text \<open>
  A shallow embedding of \<^verbatim>\<open>src/logfuse.cpp\<close>. Every FUSE operation of the file
  forwards to a native call and translates its outcome. The model makes the native side
  explicit:
  \<^item> the process state the operations share is a record \<open>world\<close>: the C library's
    \<open>errno\<close>, the list of file-system calls made so far (\<open>calls\<close>, oldest first), the
    open directory streams (\<open>dirs\<close>, by \<open>DIR *\<close>) and the allocated cursor blocks
    (\<open>heap\<close>, by address);
  \<open>world\<close> is passed to every operation and returned updated;
  \<^item> what a native call answers is not decided by the program: it is an argument of the
    operation (a function \<open>natives\<close> for the calls that return an \<open>int\<close>, the result of
    \<open>opendir\<close> and of \<open>malloc\<close> for the directory open);
  \<^item> an argument that the source mutates through a pointer (\<open>fileInfo\<close>, the filler's
    \<open>buffer\<close>) is returned updated.
  The calls to \<open>logfuse_log\<close> are left out: the log sink takes a formatted message and
  gives nothing back to the operation.
\<close>

subsection \<open>C types\<close>

text \<open>
  \<open>int\<close> values (\<open>sysErr\<close>, \<open>fd\<close>, \<open>errno\<close>) are HOL integers: the source compares
  them with \<open>-1\<close> and \<open>0\<close>, and negates \<open>errno\<close>, which is exact in C for every value
  but \<open>INT_MIN\<close>. \<open>off_t\<close> is only compared and stored. The unsigned types are words of
  their width on the Apple target (\<open>mode_t\<close> 16 bits, \<open>uid_t\<close>, \<open>gid_t\<close> 32 bits, the
  handle slot \<open>fh\<close> 64 bits). A pointer is an address, \<open>0\<close> for \<open>nullptr\<close>.
\<close>

type_synonym off_t = int
type_synonym mode_t = "16 word"
type_synonym uid_t = "32 word"
type_synonym gid_t = "32 word"
type_synonym addr = "64 word"

record timespec =
  tv_sec :: int
  tv_nsec :: int

text \<open>The attribute selectors of \<open>sys/attr.h\<close> that the source passes to \<open>setattrlist\<close>.\<close>

datatype attrgroup_t =
  ATTR_CMN_CRTIME | ATTR_CMN_MODTIME | ATTR_CMN_CHGTIME | ATTR_CMN_ACCTIME | ATTR_CMN_BKUPTIME

text \<open>\<open>struct dirent\<close> and the fields of \<open>struct stat\<close> that \<open>logfuse_readdir\<close> fills
  (\<open>memset\<close> clears the others).\<close>

record dirent =
  d_ino :: "64 word"
  d_type :: "8 word"
  d_name :: string

record stat =
  st_ino :: "64 word"
  st_mode :: mode_t

text \<open>
  A directory stream (\<open>DIR\<close>): the entries of the directory, the index of the next one
  to read, and the stream's own position tokens: \<open>tell i\<close> is what \<open>telldir\<close> answers
  at index \<open>i\<close>, \<open>seek t\<close> is the index \<open>seekdir\<close> moves to for the token \<open>t\<close>. The
  program never computes a token, so both are left to the stream. A stream whose reads
  fail has \<open>broken = Some e\<close>, \<open>e\<close> the error \<open>readdir\<close> leaves in \<open>errno\<close>.
\<close>

record DIR =
  entries :: "dirent list"
  loc :: nat
  tell :: "nat \<Rightarrow> off_t"
  seek :: "off_t \<Rightarrow> nat"
  broken :: "int option"

text \<open>\<open>struct logfuse_dir_info\<close>; \<open>entry\<close> is \<open>None\<close> for \<open>nullptr\<close>.\<close>

record logfuse_dir_info =
  dir :: addr
  entry :: "dirent option"
  offset :: off_t

text \<open>The fields of \<open>struct fuse_file_info\<close> that the source uses.\<close>

record fuse_file_info =
  flags :: int
  fh :: addr

text \<open>
  \<open>struct setattr_x\<close> of the FUSE header: \<open>valid\<close> is the selector bitmask. The fields
  \<open>size\<close> and \<open>flags\<close> of the source are \<open>size_x\<close> and \<open>flags_x\<close> here.
\<close>

record setattr_x =
  valid :: "32 word"
  mode :: mode_t
  uid :: uid_t
  gid :: gid_t
  size_x :: off_t
  acctime :: timespec
  modtime :: timespec
  crtime :: timespec
  chgtime :: timespec
  bkuptime :: timespec
  flags_x :: "32 word"

subsection \<open>The native side\<close>

text \<open>The file-system calls of the source that return an \<open>int\<close>, with their arguments.\<close>

datatype syscall =
    SYS_open string int "mode_t option"
  | SYS_lchmod string mode_t
  | SYS_lchown string uid_t gid_t
  | SYS_truncate string off_t
  | SYS_setattrlist string attrgroup_t timespec
  | SYS_lchflags string "32 word"
  | SYS_fchmod int mode_t
  | SYS_fchown int uid_t gid_t
  | SYS_ftruncate int off_t
  | SYS_fsetattrlist int attrgroup_t timespec
  | SYS_fchflags int "32 word"

text \<open>
  The outcome of such a call: \<open>Ok r\<close> returns \<open>r\<close> and leaves \<open>errno\<close> alone,
  \<open>Err e\<close> returns the sentinel \<open>-1\<close> and sets \<open>errno\<close> to \<open>e\<close>. The function
  decides it from the calls made before and the call itself.
\<close>

datatype outcome = Ok int | Err int

type_synonym natives = "syscall list \<Rightarrow> syscall \<Rightarrow> outcome"

record world =
  errno :: int
  calls :: "syscall list"
  dirs :: "addr \<rightharpoonup> DIR"
  heap :: "addr \<rightharpoonup> logfuse_dir_info"

definition native :: "natives \<Rightarrow> syscall \<Rightarrow> world \<Rightarrow> int \<times> world" where
  "native sys c w =
     (case sys (calls w) c of
        Ok r \<Rightarrow> (r, w\<lparr>calls := calls w @ [c]\<rparr>)
      | Err e \<Rightarrow> (- 1, w\<lparr>errno := e, calls := calls w @ [c]\<rparr>))"

text \<open>\<open>ENOMEM\<close> of \<open>errno.h\<close>; no statement below depends on its value.\<close>

definition ENOMEM :: int where
  "ENOMEM = 12"

text \<open>
  An \<open>int\<close> argument read from the 64-bit handle slot (\<open>fchmod(fileInfo->fh, ...)\<close>):
  the low 32 bits, signed.
\<close>

definition fd_of_fh :: "addr \<Rightarrow> int" where
  "fd_of_fh h = sint (ucast h :: 32 word)"

subsection \<open>The error translator\<close>

text \<open>
  The macro \<open>RETURN_FUSE_ERRNO\<close>: \<open>if (sysErr == -1) return(-errno); return(sysErr);\<close>
\<close>

definition RETURN_FUSE_ERRNO :: "int \<Rightarrow> world \<Rightarrow> int" where
  "RETURN_FUSE_ERRNO sysErr w = (if sysErr = - 1 then - errno w else sysErr)"

text \<open>
  Two of the operations that are one native call and the macro: \<open>logfuse_truncate\<close>
  and \<open>logfuse_ftruncate\<close>.
\<close>

definition logfuse_truncate :: "natives \<Rightarrow> string \<Rightarrow> off_t \<Rightarrow> world \<Rightarrow> int \<times> world" where
  "logfuse_truncate sys path len w =
     (let (sysErr, w') = native sys (SYS_truncate path len) w
      in (RETURN_FUSE_ERRNO sysErr w', w'))"

definition logfuse_ftruncate ::
  "natives \<Rightarrow> string \<Rightarrow> off_t \<Rightarrow> fuse_file_info \<Rightarrow> world \<Rightarrow> int \<times> world" where
  "logfuse_ftruncate sys path len fileInfo w =
     (let (sysErr, w') = native sys (SYS_ftruncate (fd_of_fh (fh fileInfo)) len) w
      in (RETURN_FUSE_ERRNO sysErr w', w'))"

subsection \<open>File open and create\<close>

definition logfuse_open ::
  "natives \<Rightarrow> string \<Rightarrow> fuse_file_info \<Rightarrow> world \<Rightarrow> int \<times> fuse_file_info \<times> world" where
  "logfuse_open sys path fileInfo w =
     (let (fd, w') = native sys (SYS_open path (flags fileInfo) None) w
      in if fd = - 1 then (- errno w', fileInfo, w')
         else (0, fileInfo\<lparr>fh := word_of_int fd\<rparr>, w'))"

definition logfuse_create ::
  "natives \<Rightarrow> string \<Rightarrow> mode_t \<Rightarrow> fuse_file_info \<Rightarrow> world \<Rightarrow> int \<times> fuse_file_info \<times> world" where
  "logfuse_create sys path m fileInfo w =
     (let (fd, w') = native sys (SYS_open path (flags fileInfo) (Some m)) w
      in if fd = - 1 then (- errno w', fileInfo, w')
         else (0, fileInfo\<lparr>fh := word_of_int fd\<rparr>, w'))"

subsection \<open>The stubbed operations\<close>

text \<open>Both bodies are \<open>return(-ENOMEM);\<close> after the log line; the arguments are unused.\<close>

definition logfuse_ioctl ::
  "string \<Rightarrow> int \<Rightarrow> addr \<Rightarrow> fuse_file_info \<Rightarrow> 32 word \<Rightarrow> addr \<Rightarrow> world \<Rightarrow> int \<times> world" where
  "logfuse_ioctl path cmd arg fileInfo fl data w = (- ENOMEM, w)"

definition logfuse_poll ::
  "string \<Rightarrow> fuse_file_info \<Rightarrow> addr \<Rightarrow> addr \<Rightarrow> world \<Rightarrow> int \<times> world" where
  "logfuse_poll path fileInfo pollHnd reventsp w = (- ENOMEM, w)"

subsection \<open>The metadata update engine\<close>

text \<open>
  The selector macros, read as C conditions. They come from the header of FUSE for macOS
  (\<open>fuse.h\<close>), which the source includes: \<open>SETATTR_WANTS_MODE(attr)\<close> is
  \<open>((attr)->valid & (1 << 0))\<close>, and so on with the bits 1 to 5 and 28 to 31. The
  general statements below take the macros as they are; the examples use the bits of
  the size (3) and of the access time (4).
\<close>

definition SETATTR_WANTS_MODE :: "setattr_x \<Rightarrow> bool" where
  "SETATTR_WANTS_MODE a = (valid a AND push_bit 0 1 \<noteq> 0)"

definition SETATTR_WANTS_UID :: "setattr_x \<Rightarrow> bool" where
  "SETATTR_WANTS_UID a = (valid a AND push_bit 1 1 \<noteq> 0)"

definition SETATTR_WANTS_GID :: "setattr_x \<Rightarrow> bool" where
  "SETATTR_WANTS_GID a = (valid a AND push_bit 2 1 \<noteq> 0)"

definition SETATTR_WANTS_SIZE :: "setattr_x \<Rightarrow> bool" where
  "SETATTR_WANTS_SIZE a = (valid a AND push_bit 3 1 \<noteq> 0)"

definition SETATTR_WANTS_ACCTIME :: "setattr_x \<Rightarrow> bool" where
  "SETATTR_WANTS_ACCTIME a = (valid a AND push_bit 4 1 \<noteq> 0)"

definition SETATTR_WANTS_MODTIME :: "setattr_x \<Rightarrow> bool" where
  "SETATTR_WANTS_MODTIME a = (valid a AND push_bit 5 1 \<noteq> 0)"

definition SETATTR_WANTS_CRTIME :: "setattr_x \<Rightarrow> bool" where
  "SETATTR_WANTS_CRTIME a = (valid a AND push_bit 28 1 \<noteq> 0)"

definition SETATTR_WANTS_CHGTIME :: "setattr_x \<Rightarrow> bool" where
  "SETATTR_WANTS_CHGTIME a = (valid a AND push_bit 29 1 \<noteq> 0)"

definition SETATTR_WANTS_BKUPTIME :: "setattr_x \<Rightarrow> bool" where
  "SETATTR_WANTS_BKUPTIME a = (valid a AND push_bit 30 1 \<noteq> 0)"

definition SETATTR_WANTS_FLAGS :: "setattr_x \<Rightarrow> bool" where
  "SETATTR_WANTS_FLAGS a = (valid a AND push_bit 31 1 \<noteq> 0)"

text \<open>\<open>logfuse_set_timespec\<close> and \<open>logfuse_fset_timespec\<close>: one \<open>setattrlist\<close> call.\<close>

definition logfuse_set_timespec ::
  "natives \<Rightarrow> string \<Rightarrow> attrgroup_t \<Rightarrow> timespec \<Rightarrow> world \<Rightarrow> int \<times> world" where
  "logfuse_set_timespec sys path theAttribute theTime w =
     native sys (SYS_setattrlist path theAttribute theTime) w"

definition logfuse_fset_timespec ::
  "natives \<Rightarrow> int \<Rightarrow> attrgroup_t \<Rightarrow> timespec \<Rightarrow> world \<Rightarrow> int \<times> world" where
  "logfuse_fset_timespec sys fd theAttribute theTime w =
     native sys (SYS_fsetattrlist fd theAttribute theTime) w"

text \<open>
  One block of \<open>logfuse_setattr_x\<close>:
  \<^verbatim>\<open>if (wanted) { sysErr = call; if (stop(sysErr)) goto done; }\<close>
  followed by the blocks after it (\<open>rest\<close>). The state is \<open>sysErr\<close> and the world;
  \<open>goto done\<close> leaves with the state as it is.
\<close>

definition attr_step ::
  "bool \<Rightarrow> (world \<Rightarrow> int \<times> world) \<Rightarrow> (int \<Rightarrow> bool) \<Rightarrow>
   (int \<times> world \<Rightarrow> int \<times> world) \<Rightarrow> int \<times> world \<Rightarrow> int \<times> world" where
  "attr_step wanted call stop rest s =
     (if wanted
      then (let (sysErr, w) = call (snd s)
            in if stop sysErr then (sysErr, w) else rest (sysErr, w))
      else rest s)"

text \<open>
  \<open>logfuse_setattr_x\<close>, block by block with the source's own tests: \<open>sysErr == -1\<close>
  after \<open>lchmod\<close> and \<open>lchown\<close>, \<open>sysErr != -1\<close> after every later call. The local
  \<open>sysErr\<close> is not initialised in the source; \<open>junk\<close> is the value it holds on entry.
  After \<open>done:\<close> the macro translates \<open>sysErr\<close>.
\<close>

definition logfuse_setattr_x ::
  "natives \<Rightarrow> int \<Rightarrow> string \<Rightarrow> setattr_x \<Rightarrow> world \<Rightarrow> int \<times> world" where
  "logfuse_setattr_x sys junk path theAttributes w0 =
     (let (sysErr, w) =
        attr_step (SETATTR_WANTS_MODE theAttributes)
          (native sys (SYS_lchmod path (mode theAttributes)))
          (\<lambda>r. r = - 1)
       (attr_step (SETATTR_WANTS_UID theAttributes \<or> SETATTR_WANTS_GID theAttributes)
          (native sys (SYS_lchown path
             (if SETATTR_WANTS_UID theAttributes then uid theAttributes else - 1)
             (if SETATTR_WANTS_GID theAttributes then gid theAttributes else - 1)))
          (\<lambda>r. r = - 1)
       (attr_step (SETATTR_WANTS_SIZE theAttributes)
          (native sys (SYS_truncate path (size_x theAttributes)))
          (\<lambda>r. r \<noteq> - 1)
       (attr_step (SETATTR_WANTS_ACCTIME theAttributes)
          (logfuse_set_timespec sys path ATTR_CMN_ACCTIME (acctime theAttributes))
          (\<lambda>r. r \<noteq> - 1)
       (attr_step (SETATTR_WANTS_MODTIME theAttributes)
          (logfuse_set_timespec sys path ATTR_CMN_MODTIME (modtime theAttributes))
          (\<lambda>r. r \<noteq> - 1)
       (attr_step (SETATTR_WANTS_CRTIME theAttributes)
          (logfuse_set_timespec sys path ATTR_CMN_CRTIME (crtime theAttributes))
          (\<lambda>r. r \<noteq> - 1)
       (attr_step (SETATTR_WANTS_CHGTIME theAttributes)
          (logfuse_set_timespec sys path ATTR_CMN_CHGTIME (chgtime theAttributes))
          (\<lambda>r. r \<noteq> - 1)
       (attr_step (SETATTR_WANTS_BKUPTIME theAttributes)
          (logfuse_set_timespec sys path ATTR_CMN_BKUPTIME (bkuptime theAttributes))
          (\<lambda>r. r \<noteq> - 1)
       (attr_step (SETATTR_WANTS_FLAGS theAttributes)
          (native sys (SYS_lchflags path (flags_x theAttributes)))
          (\<lambda>r. r \<noteq> - 1)
          id))))))))
        (junk, w0)
      in (RETURN_FUSE_ERRNO sysErr w, w))"

text \<open>\<open>logfuse_fsetattr_x\<close>: the same blocks on the descriptor \<open>fileInfo->fh\<close>.\<close>

definition logfuse_fsetattr_x ::
  "natives \<Rightarrow> int \<Rightarrow> string \<Rightarrow> setattr_x \<Rightarrow> fuse_file_info \<Rightarrow> world \<Rightarrow> int \<times> world" where
  "logfuse_fsetattr_x sys junk path theAttributes fileInfo w0 =
     (let (sysErr, w) =
        attr_step (SETATTR_WANTS_MODE theAttributes)
          (native sys (SYS_fchmod (fd_of_fh (fh fileInfo)) (mode theAttributes)))
          (\<lambda>r. r = - 1)
       (attr_step (SETATTR_WANTS_UID theAttributes \<or> SETATTR_WANTS_GID theAttributes)
          (native sys (SYS_fchown (fd_of_fh (fh fileInfo))
             (if SETATTR_WANTS_UID theAttributes then uid theAttributes else - 1)
             (if SETATTR_WANTS_GID theAttributes then gid theAttributes else - 1)))
          (\<lambda>r. r = - 1)
       (attr_step (SETATTR_WANTS_SIZE theAttributes)
          (native sys (SYS_ftruncate (fd_of_fh (fh fileInfo)) (size_x theAttributes)))
          (\<lambda>r. r \<noteq> - 1)
       (attr_step (SETATTR_WANTS_ACCTIME theAttributes)
          (logfuse_fset_timespec sys (fd_of_fh (fh fileInfo)) ATTR_CMN_ACCTIME
             (acctime theAttributes))
          (\<lambda>r. r \<noteq> - 1)
       (attr_step (SETATTR_WANTS_MODTIME theAttributes)
          (logfuse_fset_timespec sys (fd_of_fh (fh fileInfo)) ATTR_CMN_MODTIME
             (modtime theAttributes))
          (\<lambda>r. r \<noteq> - 1)
       (attr_step (SETATTR_WANTS_CRTIME theAttributes)
          (logfuse_fset_timespec sys (fd_of_fh (fh fileInfo)) ATTR_CMN_CRTIME
             (crtime theAttributes))
          (\<lambda>r. r \<noteq> - 1)
       (attr_step (SETATTR_WANTS_CHGTIME theAttributes)
          (logfuse_fset_timespec sys (fd_of_fh (fh fileInfo)) ATTR_CMN_CHGTIME
             (chgtime theAttributes))
          (\<lambda>r. r \<noteq> - 1)
       (attr_step (SETATTR_WANTS_BKUPTIME theAttributes)
          (logfuse_fset_timespec sys (fd_of_fh (fh fileInfo)) ATTR_CMN_BKUPTIME
             (bkuptime theAttributes))
          (\<lambda>r. r \<noteq> - 1)
       (attr_step (SETATTR_WANTS_FLAGS theAttributes)
          (native sys (SYS_fchflags (fd_of_fh (fh fileInfo)) (flags_x theAttributes)))
          (\<lambda>r. r \<noteq> - 1)
          id))))))))
        (junk, w0)
      in (RETURN_FUSE_ERRNO sysErr w, w))"

subsection \<open>The directory cursor manager\<close>

text \<open>
  The native calls on directory streams. \<open>opendir\<close> answers \<open>Inl e\<close> (it returns
  \<open>nullptr\<close> and sets \<open>errno\<close> to \<open>e\<close>) or \<open>Inr (p, d)\<close> (it returns the pointer
  \<open>p\<close> to a new stream \<open>d\<close>); \<open>closedir\<close> ends the stream. \<open>malloc\<close> returns the
  address it is given as its answer and sets \<open>errno\<close> when that is \<open>nullptr\<close>.
\<close>

definition opendir_sys :: "int + addr \<times> DIR \<Rightarrow> world \<Rightarrow> addr \<times> world" where
  "opendir_sys answer w =
     (case answer of
        Inl e \<Rightarrow> (0, w\<lparr>errno := e\<rparr>)
      | Inr (p, d) \<Rightarrow> (p, w\<lparr>dirs := (dirs w)(p \<mapsto> d)\<rparr>))"

definition closedir_sys :: "addr \<Rightarrow> world \<Rightarrow> world" where
  "closedir_sys p w = w\<lparr>dirs := (dirs w)(p := None)\<rparr>"

definition malloc_sys :: "addr \<Rightarrow> world \<Rightarrow> addr \<times> world" where
  "malloc_sys answer w = (answer, if answer = 0 then w\<lparr>errno := ENOMEM\<rparr> else w)"

text \<open>
  \<open>readdir\<close>, \<open>telldir\<close> and \<open>seekdir\<close> on a stream; \<open>readdir\<close> also takes and
  returns \<open>errno\<close>. At the end of the directory \<open>readdir\<close> returns \<open>nullptr\<close> and
  leaves \<open>errno\<close> alone; on a broken stream it returns \<open>nullptr\<close> and sets \<open>errno\<close>.
\<close>

definition readdir_sys :: "DIR \<Rightarrow> int \<Rightarrow> dirent option \<times> DIR \<times> int" where
  "readdir_sys d e =
     (case broken d of
        Some err \<Rightarrow> (None, d, err)
      | None \<Rightarrow>
          if loc d < length (entries d)
          then (Some (entries d ! loc d), d\<lparr>loc := Suc (loc d)\<rparr>, e)
          else (None, d, e))"

definition telldir_sys :: "DIR \<Rightarrow> off_t" where
  "telldir_sys d = tell d (loc d)"

definition seekdir_sys :: "DIR \<Rightarrow> off_t \<Rightarrow> DIR" where
  "seekdir_sys d t = d\<lparr>loc := seek d t\<rparr>"

text \<open>
  \<open>logfuse_opendir\<close>. \<open>fs\<close> is what \<open>opendir\<close> answers for each path, \<open>mem\<close> what
  \<open>malloc\<close> answers.
\<close>

definition logfuse_opendir ::
  "(string \<Rightarrow> int + addr \<times> DIR) \<Rightarrow> addr \<Rightarrow> string \<Rightarrow> fuse_file_info \<Rightarrow> world \<Rightarrow>
   int \<times> fuse_file_info \<times> world" where
  "logfuse_opendir fs mem path fileInfo w =
     (let (dp, w1) = opendir_sys (fs path) w;
          sysErr = (if dp \<noteq> 0 then 0 else errno w1)
      in if sysErr \<noteq> 0 then (- sysErr, fileInfo, w1)
         else
           (let (dirInfo, w2) = malloc_sys mem w1
            in if dirInfo = 0 then (- ENOMEM, fileInfo, closedir_sys dp w2)
               else (0, fileInfo\<lparr>fh := dirInfo\<rparr>,
                     w2\<lparr>heap := (heap w2)(dirInfo \<mapsto>
                          \<lparr>dir = dp, entry = None, offset = 0\<rparr>)\<rparr>)))"

text \<open>\<open>logfuse_get_dir\<close>: the handle slot read as a pointer to the cursor.\<close>

definition logfuse_get_dir :: "fuse_file_info \<Rightarrow> world \<Rightarrow> logfuse_dir_info option" where
  "logfuse_get_dir fileInfo w = heap w (fh fileInfo)"

text \<open>
  The filler callback of the framework: it takes the buffer, the name, the attributes
  and the next offset, and returns non-zero when the buffer is full.
\<close>

type_synonym 'b fuse_fill_dir_t = "'b \<Rightarrow> string \<Rightarrow> stat \<Rightarrow> off_t \<Rightarrow> int \<times> 'b"

text \<open>The attributes \<open>logfuse_readdir\<close> makes up for an entry: \<open>d_type << 12\<close> as a mode.\<close>

definition dirent_stat :: "dirent \<Rightarrow> stat" where
  "dirent_stat ent = \<lparr>st_ino = d_ino ent, st_mode = push_bit 12 (ucast (d_type ent))\<rparr>"

text \<open>
  The \<open>while (true)\<close> loop of \<open>logfuse_readdir\<close>, on the cursor, its stream and
  \<open>errno\<close>. Every round that does not leave the loop consumes the cached entry or an
  entry of the stream, so the loop ends.
\<close>

function readdir_loop ::
  "'b fuse_fill_dir_t \<Rightarrow> 'b \<Rightarrow> logfuse_dir_info \<Rightarrow> DIR \<Rightarrow> int \<Rightarrow>
   'b \<times> logfuse_dir_info \<times> DIR \<times> int" where
  "readdir_loop filler buffer dirInfo d e =
     (let (dirInfo1, d1, e1) =
        (if entry dirInfo = None
         then (let (r, d', e') = readdir_sys d e in (dirInfo\<lparr>entry := r\<rparr>, d', e'))
         else (dirInfo, d, e))
      in case entry dirInfo1 of
           None \<Rightarrow> (buffer, dirInfo1, d1, e1)
         | Some ent \<Rightarrow>
             (let statInfo = dirent_stat ent;
                  nextOffset = telldir_sys d1;
                  (full, buffer') = filler buffer (d_name ent) statInfo nextOffset
              in if full \<noteq> 0 then (buffer', dirInfo1, d1, e1)
                 else readdir_loop filler buffer'
                        (dirInfo1\<lparr>entry := None, offset := nextOffset\<rparr>) d1 e1))"
  by pat_completeness auto
termination
  by (relation "measure (\<lambda>(filler, buffer, dirInfo, d, e).
        2 * (length (entries d) - loc d) + (if entry dirInfo = None then 0 else 1))")
     (auto simp: readdir_sys_def split: if_splits option.splits)

declare readdir_loop.simps [simp del]

text \<open>
  \<open>logfuse_readdir\<close>. The result is \<open>None\<close> where the C program has no defined
  behaviour: the handle slot does not point to a cursor, or the cursor's stream is not
  open.
\<close>

definition logfuse_readdir ::
  "'b fuse_fill_dir_t \<Rightarrow> 'b \<Rightarrow> off_t \<Rightarrow> fuse_file_info \<Rightarrow> world \<Rightarrow> (int \<times> 'b \<times> world) option" where
  "logfuse_readdir filler buffer off fileInfo w =
     (case logfuse_get_dir fileInfo w of
        None \<Rightarrow> None
      | Some dirInfo \<Rightarrow>
          (case dirs w (dir dirInfo) of
             None \<Rightarrow> None
           | Some d \<Rightarrow>
               (let (dirInfo1, d1) =
                  (if off \<noteq> offset dirInfo
                   then (dirInfo\<lparr>entry := None, offset := off\<rparr>, seekdir_sys d off)
                   else (dirInfo, d));
                    (buffer', dirInfo', d', e') =
                      readdir_loop filler buffer dirInfo1 d1 (errno w)
                in Some (0, buffer',
                     w\<lparr>errno := e',
                       dirs := (dirs w)(dir dirInfo \<mapsto> d'),
                       heap := (heap w)(fh fileInfo \<mapsto> dirInfo')\<rparr>))))"

text \<open>
  A filler of the framework's kind, for the statements about paging: a buffer with room
  for \<open>room\<close> more entries, which takes an entry while there is room and reports that
  it is full otherwise.
\<close>

record dirbuf =
  room :: nat
  got :: "(string \<times> stat \<times> off_t) list"

definition fill_dir :: "dirbuf fuse_fill_dir_t" where
  "fill_dir b name st off =
     (if room b = 0 then (1, b)
      else (0, b\<lparr>room := room b - 1, got := got b @ [(name, st, off)]\<rparr>))"

text \<open>
  What an enumeration of the stream \<open>d\<close> from index \<open>i\<close> on hands to the filler: for
  each entry its name, its attributes and the position after it.
\<close>

definition dir_listing :: "DIR \<Rightarrow> nat \<Rightarrow> (string \<times> stat \<times> off_t) list" where
  "dir_listing d i =
     map (\<lambda>j. (d_name (entries d ! j), dirent_stat (entries d ! j), tell d (Suc j)))
       [i ..< length (entries d)]"

text \<open>
  Two notions for the statements about paging. The cursor's cached entry is the entry
  its stream read last: \<open>logfuse_opendir\<close> makes a cursor with none, and the only
  assignment of an entry to \<open>dirInfo->entry\<close> is the result of \<open>readdir\<close>. And the
  index of the first entry that a Read at the offset \<open>off\<close> hands to the filler: where
  \<open>seekdir\<close> puts the stream when \<open>off\<close> is not the cursor's offset, else where the
  stream stands, one back when the cursor holds the entry read last.
\<close>

definition cached_is_last_read :: "logfuse_dir_info \<Rightarrow> DIR \<Rightarrow> bool" where
  "cached_is_last_read dirInfo d =
     (case entry dirInfo of
        None \<Rightarrow> True
      | Some ent \<Rightarrow> 0 < loc d \<and> loc d \<le> length (entries d) \<and> entries d ! (loc d - 1) = ent)"

definition read_start :: "logfuse_dir_info \<Rightarrow> DIR \<Rightarrow> off_t \<Rightarrow> nat" where
  "read_start dirInfo d off =
     (if off \<noteq> offset dirInfo then seek d off
      else if entry dirInfo = None then loc d
      else loc d - 1)"

subsection \<open>Inputs for the examples\<close>

text \<open>A world before any call: \<open>errno\<close> clear, nothing open, nothing allocated.\<close>

definition world0 :: world where
  "world0 = \<lparr>errno = 0, calls = [], dirs = Map.empty, heap = Map.empty\<rparr>"

text \<open>
  A directory with the entries \<open>a\<close>, \<open>b\<close>, \<open>c\<close>, whose stream hands out the token
  \<open>10 * i\<close> at index \<open>i\<close>; the world after it was opened at the stream pointer \<open>1\<close>
  with its cursor at address \<open>64\<close>; and the same with a stream whose reads fail with
  error \<open>5\<close>.
\<close>

definition dir_abc :: DIR where
  "dir_abc =
     \<lparr>entries = [\<lparr>d_ino = 11, d_type = 8, d_name = ''a''\<rparr>,
                 \<lparr>d_ino = 12, d_type = 8, d_name = ''b''\<rparr>,
                 \<lparr>d_ino = 13, d_type = 4, d_name = ''c''\<rparr>],
      loc = 0, tell = (\<lambda>i. 10 * int i), seek = (\<lambda>t. nat (t div 10)), broken = None\<rparr>"

definition dirfile :: fuse_file_info where
  "dirfile = \<lparr>flags = 0, fh = 64\<rparr>"

definition world_abc :: world where
  "world_abc =
     \<lparr>errno = 0, calls = [], dirs = [1 \<mapsto> dir_abc],
      heap = [64 \<mapsto> \<lparr>dir = 1, entry = None, offset = 0\<rparr>]\<rparr>"

definition world_broken :: world where
  "world_broken =
     \<lparr>errno = 0, calls = [], dirs = [1 \<mapsto> dir_abc\<lparr>broken := Some 5\<rparr>],
      heap = [64 \<mapsto> \<lparr>dir = 1, entry = None, offset = 0\<rparr>]\<rparr>"

text \<open>
  The cursor of \<open>world_abc\<close>, and the world after a Read at offset \<open>10\<close> whose filler
  refused the entry \<open>b\<close>: the stream stands after \<open>b\<close>, which the cursor holds.
\<close>

definition cursor0 :: logfuse_dir_info where
  "cursor0 = \<lparr>dir = 1, entry = None, offset = 0\<rparr>"

definition world_b_cached :: world where
  "world_b_cached =
     \<lparr>errno = 0, calls = [], dirs = [1 \<mapsto> dir_abc\<lparr>loc := 2\<rparr>],
      heap = [64 \<mapsto> \<lparr>dir = 1, entry = Some \<lparr>d_ino = 12, d_type = 8, d_name = ''b''\<rparr>,
                      offset = 10\<rparr>]\<rparr>"

text \<open>The cursor of \<open>world_b_cached\<close>.\<close>

definition cursor_b :: logfuse_dir_info where
  "cursor_b = \<lparr>dir = 1, entry = Some \<lparr>d_ino = 12, d_type = 8, d_name = ''b''\<rparr>, offset = 10\<rparr>"

definition file0 :: fuse_file_info where
  "file0 = \<lparr>flags = 0, fh = 3\<rparr>"

text \<open>An update request with the selector \<open>sel\<close> and a value of its own in each field.\<close>

definition attrs_example :: "32 word \<Rightarrow> setattr_x" where
  "attrs_example sel =
     \<lparr>valid = sel, mode = 420, uid = 501, gid = 20, size_x = 100,
      acctime = \<lparr>tv_sec = 1, tv_nsec = 0\<rparr>, modtime = \<lparr>tv_sec = 2, tv_nsec = 0\<rparr>,
      crtime = \<lparr>tv_sec = 3, tv_nsec = 0\<rparr>, chgtime = \<lparr>tv_sec = 4, tv_nsec = 0\<rparr>,
      bkuptime = \<lparr>tv_sec = 5, tv_nsec = 0\<rparr>, flags_x = 0\<rparr>"

text \<open>
  Three file systems: one where every call succeeds with \<open>0\<close>, one where truncating
  fails with error \<open>13\<close> (\<open>EACCES\<close>), one where changing the owner fails with error
  \<open>1\<close> (\<open>EPERM\<close>).
\<close>

definition all_succeed :: natives where
  "all_succeed h c = Ok 0"

definition size_fails :: natives where
  "size_fails h c =
     (case c of SYS_truncate p n \<Rightarrow> Err 13 | SYS_ftruncate fd n \<Rightarrow> Err 13 | _ \<Rightarrow> Ok 0)"

definition chown_fails :: natives where
  "chown_fails h c =
     (case c of SYS_lchown p u g \<Rightarrow> Err 1 | SYS_fchown fd u g \<Rightarrow> Err 1 | _ \<Rightarrow> Ok 0)"

section \<open>Properties\<close>

subsection \<open>Error translation\<close>

text \<open>
  C3. The outcome \<open>-1\<close> with last error \<open>E\<close> is returned as \<open>-E\<close>; an outcome
  \<open>R \<ge> 0\<close> is returned unchanged. So it is for the macro, and for an operation that
  ends in it: when the native call fails with the error \<open>E\<close> the operation returns
  \<open>-E\<close>, when it returns \<open>R \<ge> 0\<close> the operation returns \<open>R\<close>.
\<close>

theorem RETURN_FUSE_ERRNO_contract:
  "RETURN_FUSE_ERRNO (- 1) (w\<lparr>errno := E\<rparr>) = - E \<and>
   (0 \<le> R \<longrightarrow> RETURN_FUSE_ERRNO R w = R) \<and>
   (sys (calls w) (SYS_truncate path len) = Err E \<longrightarrow>
      fst (logfuse_truncate sys path len w) = - E) \<and>
   (sys (calls w) (SYS_truncate path len) = Ok R \<and> 0 \<le> R \<longrightarrow>
      fst (logfuse_truncate sys path len w) = R) \<and>
   (sys (calls w) (SYS_ftruncate (fd_of_fh (fh fileInfo)) len) = Err E \<longrightarrow>
      fst (logfuse_ftruncate sys path len fileInfo w) = - E) \<and>
   (sys (calls w) (SYS_ftruncate (fd_of_fh (fh fileInfo)) len) = Ok R \<and> 0 \<le> R \<longrightarrow>
      fst (logfuse_ftruncate sys path len fileInfo w) = R)"
  by (simp add: RETURN_FUSE_ERRNO_def logfuse_truncate_def logfuse_ftruncate_def native_def)

theorem RETURN_FUSE_ERRNO_contract_witness:
  "RETURN_FUSE_ERRNO (- 1) (world0\<lparr>errno := 13\<rparr>) = - 13 \<and>
   (0::int) \<le> 7 \<and> RETURN_FUSE_ERRNO 7 world0 = 7 \<and>
   fst (logfuse_truncate (\<lambda>h c. Err 13) ''f'' 100 world0) = - 13 \<and>
   fst (logfuse_truncate (\<lambda>h c. Ok 7) ''f'' 100 world0) = 7 \<and>
   fst (logfuse_ftruncate (\<lambda>h c. Err 13) ''f'' 100 file0 world0) = - 13 \<and>
   fst (logfuse_ftruncate (\<lambda>h c. Ok 7) ''f'' 100 file0 world0) = 7"
  using RETURN_FUSE_ERRNO_contract [where w = world0 and E = 13 and R = 7
      and sys = "\<lambda>h c. Err 13" and path = "''f''" and len = 100 and fileInfo = file0]
    RETURN_FUSE_ERRNO_contract [where w = world0 and E = 13 and R = 7
      and sys = "\<lambda>h c. Ok 7" and path = "''f''" and len = 100 and fileInfo = file0]
  by simp

subsection \<open>The stubbed operations\<close>

text \<open>
  C9. The device-control and the readiness-poll operations return the same fixed code
  for every input and leave the world as it is: no call is added to \<open>calls\<close>, no
  stream or block changes, \<open>errno\<close> is not touched.
\<close>

theorem stubs_return_ENOMEM:
  "logfuse_ioctl path cmd arg fileInfo fl data w = (- ENOMEM, w) \<and>
   logfuse_poll path' fileInfo' pollHnd reventsp w = (- ENOMEM, w)"
  by (simp add: logfuse_ioctl_def logfuse_poll_def)

subsection \<open>File open and create\<close>

text \<open>
  C8. \<open>logfuse_open\<close> and \<open>logfuse_create\<close> acquire the descriptor the same way: when
  \<open>open\<close> returns a descriptor (anything but \<open>-1\<close>) the operation returns \<open>0\<close> and the
  handle slot holds the descriptor; when \<open>open\<close> fails with error \<open>e\<close> the operation
  returns \<open>-e\<close> and \<open>fileInfo\<close> is returned as it came.
\<close>

theorem open_create_descriptor:
  "(sys (calls w) (SYS_open path (flags fileInfo) None) = Ok fd \<and> fd \<noteq> - 1 \<longrightarrow>
      logfuse_open sys path fileInfo w =
        (0, fileInfo\<lparr>fh := word_of_int fd\<rparr>,
         w\<lparr>calls := calls w @ [SYS_open path (flags fileInfo) None]\<rparr>)) \<and>
   (sys (calls w) (SYS_open path (flags fileInfo) None) = Err e \<longrightarrow>
      logfuse_open sys path fileInfo w =
        (- e, fileInfo,
         w\<lparr>errno := e, calls := calls w @ [SYS_open path (flags fileInfo) None]\<rparr>)) \<and>
   (sys (calls w) (SYS_open path (flags fileInfo) (Some m)) = Ok fd \<and> fd \<noteq> - 1 \<longrightarrow>
      logfuse_create sys path m fileInfo w =
        (0, fileInfo\<lparr>fh := word_of_int fd\<rparr>,
         w\<lparr>calls := calls w @ [SYS_open path (flags fileInfo) (Some m)]\<rparr>)) \<and>
   (sys (calls w) (SYS_open path (flags fileInfo) (Some m)) = Err e \<longrightarrow>
      logfuse_create sys path m fileInfo w =
        (- e, fileInfo,
         w\<lparr>errno := e, calls := calls w @ [SYS_open path (flags fileInfo) (Some m)]\<rparr>))"
  by (simp add: logfuse_open_def logfuse_create_def native_def)

theorem open_create_descriptor_witness:
  "logfuse_open (\<lambda>h c. Ok 5) ''f'' file0 world0 =
     (0, file0\<lparr>fh := 5\<rparr>, world0\<lparr>calls := [SYS_open ''f'' 0 None]\<rparr>) \<and>
   logfuse_open (\<lambda>h c. Err 2) ''f'' file0 world0 =
     (- 2, file0, world0\<lparr>errno := 2, calls := [SYS_open ''f'' 0 None]\<rparr>) \<and>
   logfuse_create (\<lambda>h c. Ok 5) ''f'' 420 file0 world0 =
     (0, file0\<lparr>fh := 5\<rparr>, world0\<lparr>calls := [SYS_open ''f'' 0 (Some 420)]\<rparr>) \<and>
   logfuse_create (\<lambda>h c. Err 2) ''f'' 420 file0 world0 =
     (- 2, file0, world0\<lparr>errno := 2, calls := [SYS_open ''f'' 0 (Some 420)]\<rparr>)"
  using open_create_descriptor [where sys = "\<lambda>h c. Ok 5" and w = world0 and path = "''f''"
      and fileInfo = file0 and fd = 5 and m = 420]
    open_create_descriptor [where sys = "\<lambda>h c. Err 2" and w = world0 and path = "''f''"
      and fileInfo = file0 and e = 2 and m = 420]
  by (simp add: world0_def file0_def)

subsection \<open>Metadata updates\<close>

lemma attrs_example_fields:
  "valid (attrs_example sel) = sel" "mode (attrs_example sel) = 420"
  "uid (attrs_example sel) = 501" "gid (attrs_example sel) = 20"
  "size_x (attrs_example sel) = 100"
  "acctime (attrs_example sel) = \<lparr>tv_sec = 1, tv_nsec = 0\<rparr>"
  by (simp_all add: attrs_example_def)

lemma wants_size_acctime:
  "\<not> SETATTR_WANTS_MODE (attrs_example 24)"
  "\<not> SETATTR_WANTS_UID (attrs_example 24)"
  "\<not> SETATTR_WANTS_GID (attrs_example 24)"
  "SETATTR_WANTS_SIZE (attrs_example 24)"
  "SETATTR_WANTS_ACCTIME (attrs_example 24)"
  by (simp_all add: attrs_example_fields SETATTR_WANTS_MODE_def SETATTR_WANTS_UID_def
      SETATTR_WANTS_GID_def SETATTR_WANTS_SIZE_def SETATTR_WANTS_ACCTIME_def)

lemma wants_mode_uid_size:
  "SETATTR_WANTS_MODE (attrs_example 11)"
  "SETATTR_WANTS_UID (attrs_example 11)"
  "\<not> SETATTR_WANTS_GID (attrs_example 11)"
  "SETATTR_WANTS_SIZE (attrs_example 11)"
  by (simp_all add: attrs_example_fields SETATTR_WANTS_MODE_def SETATTR_WANTS_UID_def
      SETATTR_WANTS_GID_def SETATTR_WANTS_SIZE_def)

lemma wants_nothing:
  "\<not> SETATTR_WANTS_MODE (attrs_example 0)" "\<not> SETATTR_WANTS_UID (attrs_example 0)"
  "\<not> SETATTR_WANTS_GID (attrs_example 0)" "\<not> SETATTR_WANTS_SIZE (attrs_example 0)"
  "\<not> SETATTR_WANTS_ACCTIME (attrs_example 0)" "\<not> SETATTR_WANTS_MODTIME (attrs_example 0)"
  "\<not> SETATTR_WANTS_CRTIME (attrs_example 0)" "\<not> SETATTR_WANTS_CHGTIME (attrs_example 0)"
  "\<not> SETATTR_WANTS_BKUPTIME (attrs_example 0)" "\<not> SETATTR_WANTS_FLAGS (attrs_example 0)"
  by (simp_all add: attrs_example_fields SETATTR_WANTS_MODE_def SETATTR_WANTS_UID_def
      SETATTR_WANTS_GID_def SETATTR_WANTS_SIZE_def SETATTR_WANTS_ACCTIME_def
      SETATTR_WANTS_MODTIME_def SETATTR_WANTS_CRTIME_def SETATTR_WANTS_CHGTIME_def
      SETATTR_WANTS_BKUPTIME_def SETATTR_WANTS_FLAGS_def)

lemma fd_of_fh_file0: "fd_of_fh (fh file0) = 3"
  by (simp add: fd_of_fh_def file0_def)

lemma RETURN_FUSE_ERRNO_zero: "RETURN_FUSE_ERRNO 0 w = 0"
  by (simp add: RETURN_FUSE_ERRNO_def)

text \<open>
  C1, at the selector \<open>{size, access-time}\<close> (\<open>valid = 24\<close>) on a file system where
  truncating fails with error \<open>13\<close>: both operations go on to the access time after
  the failed size call and return \<open>0\<close>, where stopping at the first failure would make
  the single call to truncate and return \<open>-13\<close>.
\<close>

theorem setattr_x_goes_on_after_failed_size:
  "logfuse_setattr_x size_fails junk ''f'' (attrs_example 24) world0 =
     (0, world0\<lparr>errno := 13, calls := [SYS_truncate ''f'' 100,
            SYS_setattrlist ''f'' ATTR_CMN_ACCTIME \<lparr>tv_sec = 1, tv_nsec = 0\<rparr>]\<rparr>) \<and>
   logfuse_fsetattr_x size_fails junk ''f'' (attrs_example 24) file0 world0 =
     (0, world0\<lparr>errno := 13, calls := [SYS_ftruncate 3 100,
            SYS_fsetattrlist 3 ATTR_CMN_ACCTIME \<lparr>tv_sec = 1, tv_nsec = 0\<rparr>]\<rparr>)"
  by (simp add: logfuse_setattr_x_def logfuse_fsetattr_x_def attr_step_def wants_size_acctime
      attrs_example_fields fd_of_fh_file0 native_def size_fails_def
      logfuse_set_timespec_def logfuse_fset_timespec_def RETURN_FUSE_ERRNO_def world0_def)

text \<open>
  C2, at the same selector on a file system where every call succeeds: both operations
  return \<open>0\<close> after the size call alone, and the selected access time is never set.
  With the empty selector no block assigns \<open>sysErr\<close>, and the value returned is the
  translation of whatever the variable held.
\<close>

theorem setattr_x_ends_after_size:
  "logfuse_setattr_x all_succeed junk ''f'' (attrs_example 24) world0 =
     (0, world0\<lparr>calls := [SYS_truncate ''f'' 100]\<rparr>) \<and>
   logfuse_fsetattr_x all_succeed junk ''f'' (attrs_example 24) file0 world0 =
     (0, world0\<lparr>calls := [SYS_ftruncate 3 100]\<rparr>) \<and>
   logfuse_setattr_x all_succeed junk ''f'' (attrs_example 0) world0 =
     (RETURN_FUSE_ERRNO junk world0, world0) \<and>
   logfuse_fsetattr_x all_succeed junk ''f'' (attrs_example 0) file0 world0 =
     (RETURN_FUSE_ERRNO junk world0, world0)"
  by (simp add: logfuse_setattr_x_def logfuse_fsetattr_x_def attr_step_def wants_size_acctime
      wants_nothing attrs_example_fields fd_of_fh_file0 native_def all_succeed_def
      logfuse_set_timespec_def logfuse_fset_timespec_def RETURN_FUSE_ERRNO_zero world0_def)

text \<open>
  C6. A request that selects the mode and the owner (and whatever else, the size
  included), on a file system where the mode call succeeds and the owner call fails with
  error \<open>e\<close>: the operation returns \<open>-e\<close>, and the calls it has made are the mode call
  and the owner call, in this order, and no other; the size call is not among them. The
  same holds on the path and on the descriptor.
\<close>

theorem setattr_x_owner_failure:
  assumes "SETATTR_WANTS_MODE a" and "SETATTR_WANTS_UID a"
  shows
   "(sys (calls w) (SYS_lchmod path (mode a)) = Ok r \<and> r \<noteq> - 1 \<and>
     sys (calls w @ [SYS_lchmod path (mode a)])
       (SYS_lchown path (uid a) (if SETATTR_WANTS_GID a then gid a else - 1)) = Err e \<longrightarrow>
     logfuse_setattr_x sys junk path a w =
       (- e, w\<lparr>errno := e, calls := calls w @ [SYS_lchmod path (mode a),
          SYS_lchown path (uid a) (if SETATTR_WANTS_GID a then gid a else - 1)]\<rparr>)) \<and>
    (sys (calls w) (SYS_fchmod (fd_of_fh (fh fileInfo)) (mode a)) = Ok r \<and> r \<noteq> - 1 \<and>
     sys (calls w @ [SYS_fchmod (fd_of_fh (fh fileInfo)) (mode a)])
       (SYS_fchown (fd_of_fh (fh fileInfo)) (uid a)
          (if SETATTR_WANTS_GID a then gid a else - 1)) = Err e \<longrightarrow>
     logfuse_fsetattr_x sys junk path a fileInfo w =
       (- e, w\<lparr>errno := e, calls := calls w @ [SYS_fchmod (fd_of_fh (fh fileInfo)) (mode a),
          SYS_fchown (fd_of_fh (fh fileInfo)) (uid a)
            (if SETATTR_WANTS_GID a then gid a else - 1)]\<rparr>))"
  using assms
  by (simp add: logfuse_setattr_x_def logfuse_fsetattr_x_def attr_step_def native_def
      RETURN_FUSE_ERRNO_def)

theorem setattr_x_owner_failure_witness:
  "SETATTR_WANTS_MODE (attrs_example 11) \<and> SETATTR_WANTS_UID (attrs_example 11) \<and>
   SETATTR_WANTS_SIZE (attrs_example 11) \<and>
   logfuse_setattr_x chown_fails 0 ''f'' (attrs_example 11) world0 =
     (- 1, world0\<lparr>errno := 1, calls := [SYS_lchmod ''f'' 420, SYS_lchown ''f'' 501 (- 1)]\<rparr>) \<and>
   logfuse_fsetattr_x chown_fails 0 ''f'' (attrs_example 11) file0 world0 =
     (- 1, world0\<lparr>errno := 1, calls := [SYS_fchmod 3 420, SYS_fchown 3 501 (- 1)]\<rparr>)"
  using setattr_x_owner_failure [where a = "attrs_example 11" and sys = chown_fails
      and w = world0 and path = "''f''" and r = 0 and e = 1 and junk = 0 and fileInfo = file0]
  by (simp add: wants_mode_uid_size attrs_example_fields chown_fails_def world0_def
      fd_of_fh_file0)

subsection \<open>Directory open\<close>

text \<open>
  C7. When \<open>opendir\<close> returns a stream \<open>p\<close> and \<open>malloc\<close> a block \<open>mem\<close>, the
  operation returns \<open>0\<close>, the handle slot holds \<open>mem\<close>, and the block is a cursor on
  \<open>p\<close> with offset \<open>0\<close> and no cached entry. When \<open>opendir\<close> fails with the error
  \<open>e\<close> (an error number, so not \<open>0\<close>), the operation returns \<open>-e\<close> and \<open>fileInfo\<close>
  is returned as it came. When \<open>opendir\<close> returns a stream and \<open>malloc\<close> returns
  \<open>nullptr\<close>, the operation returns \<open>-ENOMEM\<close>, the stream is no longer open, no block
  is stored and \<open>fileInfo\<close> is returned as it came.
\<close>

theorem opendir_contract:
  "(fs path = Inr (p, d) \<and> p \<noteq> 0 \<and> mem \<noteq> 0 \<longrightarrow>
      logfuse_opendir fs mem path fileInfo w =
        (0, fileInfo\<lparr>fh := mem\<rparr>,
         w\<lparr>dirs := (dirs w)(p \<mapsto> d),
           heap := (heap w)(mem \<mapsto> \<lparr>dir = p, entry = None, offset = 0\<rparr>)\<rparr>)) \<and>
   (fs path = Inl e \<and> e \<noteq> 0 \<longrightarrow>
      logfuse_opendir fs mem path fileInfo w = (- e, fileInfo, w\<lparr>errno := e\<rparr>)) \<and>
   (fs path = Inr (p, d) \<and> p \<noteq> 0 \<longrightarrow>
      logfuse_opendir fs 0 path fileInfo w =
        (- ENOMEM, fileInfo, w\<lparr>errno := ENOMEM, dirs := (dirs w)(p := None)\<rparr>))"
  by (simp add: logfuse_opendir_def opendir_sys_def malloc_sys_def closedir_sys_def)

theorem opendir_contract_witness:
  "logfuse_opendir (\<lambda>p. Inr (1, dir_abc)) 64 ''d'' file0 world0 = (0, dirfile, world_abc) \<and>
   logfuse_opendir (\<lambda>p. Inl 2) 64 ''d'' file0 world0 = (- 2, file0, world0\<lparr>errno := 2\<rparr>) \<and>
   logfuse_opendir (\<lambda>p. Inr (1, dir_abc)) 0 ''d'' file0 world0 =
     (- ENOMEM, file0, world0\<lparr>errno := ENOMEM\<rparr>)"
  using opendir_contract [where fs = "\<lambda>p. Inr (1, dir_abc)" and mem = 64 and path = "''d''"
      and p = 1 and d = dir_abc and fileInfo = file0 and w = world0]
    opendir_contract [where fs = "\<lambda>p. Inl 2" and mem = 64 and path = "''d''" and e = 2
      and fileInfo = file0 and w = world0]
  by (simp add: world0_def world_abc_def dirfile_def file0_def)

subsection \<open>Directory read\<close>

lemma world_abc_valid:
  "logfuse_get_dir dirfile world_abc = Some cursor0"
  "dirs world_abc (dir cursor0) = Some dir_abc"
  "broken dir_abc = None" "entry cursor0 = None" "loc dir_abc = 0" "offset cursor0 = 0"
  by (simp_all add: logfuse_get_dir_def dirfile_def world_abc_def cursor0_def dir_abc_def)

lemma world_broken_valid:
  "logfuse_get_dir dirfile world_broken = Some cursor0"
  "dirs world_broken (dir cursor0) = Some (dir_abc\<lparr>broken := Some 5\<rparr>)"
  by (simp_all add: logfuse_get_dir_def dirfile_def world_broken_def cursor0_def)

text \<open>
  C10. On a handle that points to a cursor whose stream is open, \<open>logfuse_readdir\<close>
  returns, and what it returns is \<open>0\<close>: for every filler, buffer and requested offset,
  and for every stream, a broken one included.
\<close>

theorem readdir_returns_zero:
  assumes "logfuse_get_dir fileInfo w = Some dirInfo" and "dirs w (dir dirInfo) = Some d"
  shows "\<exists>buffer' w'. logfuse_readdir filler buffer off fileInfo w = Some (0, buffer', w')"
  using assms by (simp add: logfuse_readdir_def split: prod.split)

theorem readdir_returns_zero_witness:
  "logfuse_get_dir dirfile world_broken = Some cursor0 \<and>
   dirs world_broken (dir cursor0) = Some (dir_abc\<lparr>broken := Some 5\<rparr>) \<and>
   (\<exists>buffer' w'. logfuse_readdir fill_dir \<lparr>room = 1, got = []\<rparr> 0 dirfile world_broken =
      Some (0, buffer', w')) \<and>
   logfuse_readdir fill_dir \<lparr>room = 1, got = []\<rparr> 0 dirfile world_broken =
     Some (0, \<lparr>room = 1, got = []\<rparr>, world_broken\<lparr>errno := 5\<rparr>)"
proof -
  have "logfuse_readdir fill_dir \<lparr>room = 1, got = []\<rparr> 0 dirfile world_broken =
     Some (0, \<lparr>room = 1, got = []\<rparr>, world_broken\<lparr>errno := 5\<rparr>)"
    by (simp add: logfuse_readdir_def logfuse_get_dir_def dirfile_def world_broken_def
        readdir_loop.simps readdir_sys_def dir_abc_def)
  with readdir_returns_zero [OF world_broken_valid, where filler = fill_dir
      and buffer = "\<lparr>room = 1, got = []\<rparr>" and off = 0]
  show ?thesis
    by (simp add: world_broken_valid)
qed

text \<open>The three ways a round of the loop goes.\<close>

lemma readdir_sys_again:
  "readdir_sys d e = (None, d', e') \<Longrightarrow> readdir_sys d' e' = (None, d', e')"
  by (auto simp: readdir_sys_def split: option.splits if_splits)

lemma readdir_loop_Some:
  "entry c = Some x \<Longrightarrow>
   readdir_loop f b c d e =
     (case f b (d_name x) (dirent_stat x) (telldir_sys d) of
        (full, b') \<Rightarrow>
          if full \<noteq> 0 then (b', c, d, e)
          else readdir_loop f b' (c\<lparr>entry := None, offset := telldir_sys d\<rparr>) d e)"
  by (subst readdir_loop.simps) (simp add: Let_def)

lemma readdir_loop_end:
  "entry c = None \<Longrightarrow> readdir_sys d e = (None, d', e') \<Longrightarrow>
   readdir_loop f b c d e = (b, c, d', e')"
  by (subst readdir_loop.simps) simp

lemma readdir_loop_read:
  "entry c = None \<Longrightarrow> readdir_sys d e = (Some x, d', e') \<Longrightarrow>
   readdir_loop f b c d e = readdir_loop f b (c\<lparr>entry := Some x\<rparr>) d' e'"
  by (subst (1 2) readdir_loop.simps) simp

text \<open>
  After a run of the loop in which the filler took nothing, the loop run again, with any
  filler, does what it would have done in the first place.
\<close>

lemma readdir_loop_refused:
  assumes never: "\<forall>b n s t. fst (g b n s t) \<noteq> 0"
    and first: "readdir_loop g b0 c d e = (b1, c1, d1, e1)"
  shows "readdir_loop f b c1 d1 e1 = readdir_loop f b c d e \<and>
    offset c1 = offset c \<and> dir c1 = dir c"
proof (cases "entry c")
  case (Some x)
  from never have "fst (g b0 (d_name x) (dirent_stat x) (telldir_sys d)) \<noteq> 0" by blast
  with first have "c1 = c \<and> d1 = d \<and> e1 = e"
    by (auto simp: readdir_loop_Some [OF Some] split: prod.splits)
  then show ?thesis by simp
next
  case None
  obtain r d' e' where rd: "readdir_sys d e = (r, d', e')"
    by (cases "readdir_sys d e") auto
  show ?thesis
  proof (cases r)
    case rNone: None
    with first None rd have eq: "c1 = c \<and> d1 = d' \<and> e1 = e'"
      by (simp add: readdir_loop_end)
    from rd rNone have "readdir_sys d' e' = (None, d', e')"
      by (simp add: readdir_sys_again)
    with rd rNone None have "readdir_loop f b c d' e' = readdir_loop f b c d e"
      by (simp add: readdir_loop_end)
    with eq show ?thesis by simp
  next
    case (Some x)
    from never have no: "fst (g b0 (d_name x) (dirent_stat x) (telldir_sys d')) \<noteq> 0" by blast
    from rd Some have rd': "readdir_sys d e = (Some x, d', e')" by simp
    have "readdir_loop g b0 c d e = readdir_loop g b0 (c\<lparr>entry := Some x\<rparr>) d' e'"
      by (rule readdir_loop_read [OF None rd'])
    with first no have eq: "c1 = c\<lparr>entry := Some x\<rparr> \<and> d1 = d' \<and> e1 = e'"
      by (auto simp: readdir_loop_Some [of "c\<lparr>entry := Some x\<rparr>" x] split: prod.splits)
    with readdir_loop_read [OF None rd', of f b] show ?thesis by simp
  qed
qed

lemma refused_at_10:
  "logfuse_readdir (\<lambda>b n s t. (1, b)) (0::nat) 10 dirfile world_abc =
     Some (0, 0, world_b_cached)"
  by (simp add: logfuse_readdir_def logfuse_get_dir_def dirfile_def world_abc_def
      world_b_cached_def seekdir_sys_def readdir_loop.simps readdir_sys_def telldir_sys_def
      dir_abc_def numeral_2_eq_2)

text \<open>
  C5. Repositioning is idempotent: after a Read at the offset \<open>off\<close> in which the filler
  took no entry (\<open>refuse\<close> never does), a second Read at \<open>off\<close>, with any filler and
  buffer, gives exactly what it gives when it is the first: the same entries handed to
  the filler, the same result and the same world. And a Read at an offset other than
  the cursor's is the Read on the cursor whose stream was moved to that offset, whose
  cached entry was dropped and whose offset is the requested one.
\<close>

theorem readdir_reposition_idempotent:
  "((\<forall>b n s t. fst (refuse b n s t) \<noteq> 0) \<and>
    logfuse_readdir refuse b0 off fileInfo w = Some (r1, b1, w1) \<longrightarrow>
    logfuse_readdir filler buffer off fileInfo w1 =
      logfuse_readdir filler buffer off fileInfo w) \<and>
   (logfuse_get_dir fileInfo w = Some dirInfo \<and> dirs w (dir dirInfo) = Some d \<and>
    off \<noteq> offset dirInfo \<longrightarrow>
    logfuse_readdir filler buffer off fileInfo w =
      logfuse_readdir filler buffer off fileInfo
        (w\<lparr>dirs := (dirs w)(dir dirInfo \<mapsto> seekdir_sys d off),
           heap := (heap w)(fh fileInfo \<mapsto> dirInfo\<lparr>entry := None, offset := off\<rparr>)\<rparr>))"
proof (intro conjI impI)
  assume "logfuse_get_dir fileInfo w = Some dirInfo \<and> dirs w (dir dirInfo) = Some d \<and>
    off \<noteq> offset dirInfo"
  then show "logfuse_readdir filler buffer off fileInfo w =
      logfuse_readdir filler buffer off fileInfo
        (w\<lparr>dirs := (dirs w)(dir dirInfo \<mapsto> seekdir_sys d off),
           heap := (heap w)(fh fileInfo \<mapsto> dirInfo\<lparr>entry := None, offset := off\<rparr>)\<rparr>)"
    by (simp add: logfuse_readdir_def logfuse_get_dir_def split: prod.splits)
next
  assume "(\<forall>b n s t. fst (refuse b n s t) \<noteq> 0) \<and>
    logfuse_readdir refuse b0 off fileInfo w = Some (r1, b1, w1)"
  then have never: "\<forall>b n s t. fst (refuse b n s t) \<noteq> 0"
    and first: "logfuse_readdir refuse b0 off fileInfo w = Some (r1, b1, w1)" by blast+
  from first obtain c d where c: "heap w (fh fileInfo) = Some c" and d: "dirs w (dir c) = Some d"
    by (auto simp: logfuse_readdir_def logfuse_get_dir_def split: option.splits)
  define c0 where "c0 = (if off \<noteq> offset c then c\<lparr>entry := None, offset := off\<rparr> else c)"
  define d0 where "d0 = (if off \<noteq> offset c then seekdir_sys d off else d)"
  obtain b1' c1 d1 e1 where loop1: "readdir_loop refuse b0 c0 d0 (errno w) = (b1', c1, d1, e1)"
    by (cases "readdir_loop refuse b0 c0 d0 (errno w)") auto
  from first c d loop1 have w1: "w1 = w\<lparr>errno := e1, dirs := (dirs w)(dir c \<mapsto> d1),
      heap := (heap w)(fh fileInfo \<mapsto> c1)\<rparr>"
    by (auto simp: logfuse_readdir_def logfuse_get_dir_def c0_def d0_def split: if_splits)
  from readdir_loop_refused [OF never loop1, of filler buffer]
  have same: "readdir_loop filler buffer c1 d1 e1 = readdir_loop filler buffer c0 d0 (errno w)"
    and off1: "offset c1 = off" and dir1: "dir c1 = dir c"
    by (auto simp: c0_def split: if_splits)
  show "logfuse_readdir filler buffer off fileInfo w1 =
      logfuse_readdir filler buffer off fileInfo w"
    using c d same off1 dir1
    by (simp add: w1 logfuse_readdir_def logfuse_get_dir_def c0_def d0_def split: prod.splits)
qed

theorem readdir_reposition_idempotent_witness:
  "logfuse_readdir (\<lambda>b n s t. (1, b)) (0::nat) 10 dirfile world_abc =
     Some (0, 0, world_b_cached) \<and>
   logfuse_readdir fill_dir \<lparr>room = 5, got = []\<rparr> 10 dirfile world_b_cached =
     logfuse_readdir fill_dir \<lparr>room = 5, got = []\<rparr> 10 dirfile world_abc \<and>
   logfuse_get_dir dirfile world_abc = Some cursor0 \<and>
   dirs world_abc (dir cursor0) = Some dir_abc \<and> (10::int) \<noteq> offset cursor0 \<and>
   logfuse_readdir fill_dir \<lparr>room = 5, got = []\<rparr> 10 dirfile world_abc =
     logfuse_readdir fill_dir \<lparr>room = 5, got = []\<rparr> 10 dirfile
       (world_abc\<lparr>dirs := (dirs world_abc)(dir cursor0 \<mapsto> seekdir_sys dir_abc 10),
          heap := (heap world_abc)(fh dirfile \<mapsto> cursor0\<lparr>entry := None, offset := 10\<rparr>)\<rparr>)"
  using readdir_reposition_idempotent [where refuse = "\<lambda>b n s t. (1, b)" and ?b0.0 = "0::nat"
      and off = 10 and fileInfo = dirfile and w = world_abc and ?r1.0 = 0 and ?b1.0 = 0
      and ?w1.0 = world_b_cached and filler = fill_dir and buffer = "\<lparr>room = 5, got = []\<rparr>"
      and dirInfo = cursor0 and d = dir_abc]
  by (simp add: refused_at_10 world_abc_valid)

text \<open>The listing of a stream, and the bounded filler.\<close>

lemma dir_listing_Cons:
  "i < length (entries d) \<Longrightarrow>
   dir_listing d i =
     (d_name (entries d ! i), dirent_stat (entries d ! i), tell d (Suc i)) #
     dir_listing d (Suc i)"
  by (simp add: dir_listing_def upt_conv_Cons)

lemma dir_listing_Nil: "length (entries d) \<le> i \<Longrightarrow> dir_listing d i = []"
  by (simp add: dir_listing_def)

lemma dir_listing_loc [simp]: "dir_listing (d\<lparr>loc := j\<rparr>) i = dir_listing d i"
  by (simp add: dir_listing_def)

lemma length_dir_listing [simp]: "length (dir_listing d i) = length (entries d) - i"
  by (simp add: dir_listing_def)

lemma drop_dir_listing: "drop k (dir_listing d i) = dir_listing d (i + k)"
  by (simp add: dir_listing_def drop_map add.commute)

lemma last_take_dir_listing:
  assumes "0 < k" and "k \<le> length (entries d) - i"
  shows "snd (snd (last (take k (dir_listing d i)))) = tell d (i + k)"
proof -
  from assms have len: "length (take k (dir_listing d i)) = k"
    by simp
  with assms have "take k (dir_listing d i) \<noteq> []"
    by (metis length_0_conv less_numeral_extra(3))
  then have "last (take k (dir_listing d i)) = take k (dir_listing d i) ! (k - 1)"
    using len by (simp add: last_conv_nth)
  also from assms have "\<dots> = dir_listing d i ! (k - 1)"
    by simp
  finally have "last (take k (dir_listing d i)) = dir_listing d i ! (k - 1)" .
  also have "snd (snd \<dots>) = tell d (Suc (i + (k - 1)))"
  proof -
    from assms have "i + (k - 1) < length (entries d)" by arith
    then have "[i ..< length (entries d)] ! (k - 1) = i + (k - 1)"
      by (rule nth_upt)
    moreover from assms have "k - 1 < length [i ..< length (entries d)]" by simp
    ultimately show ?thesis
      by (simp add: dir_listing_def)
  qed
  finally show ?thesis using assms by simp
qed

lemma dir_listing_abc:
  "dir_listing dir_abc 0 =
     [(''a'', \<lparr>st_ino = 11, st_mode = 32768\<rparr>, 10),
      (''b'', \<lparr>st_ino = 12, st_mode = 32768\<rparr>, 20),
      (''c'', \<lparr>st_ino = 13, st_mode = 16384\<rparr>, 30)]"
  by (simp add: dir_listing_def dir_abc_def dirent_stat_def upt_conv_Cons)

lemma fill_dir_full: "room b = 0 \<Longrightarrow> fill_dir b n s t = (1, b)"
  by (simp add: fill_dir_def)

lemma fill_dir_room:
  "room b = Suc m \<Longrightarrow> fill_dir b n s t = (0, \<lparr>room = m, got = got b @ [(n, s, t)]\<rparr>)"
  by (simp add: fill_dir_def)

lemma dirbuf_eq: "(b = \<lparr>room = r, got = g\<rparr>) = (room b = r \<and> got b = g)"
  by (cases b) simp

text \<open>
  The loop with the bounded filler, from a cursor with no cached entry on a stream with
  \<open>n\<close> entries left: with room for fewer than \<open>n\<close> it hands over as many as there is
  room for and stops with the next one cached; otherwise it hands over all of them.
\<close>

lemma readdir_loop_fill:
  assumes "broken d = None" and "entry c = None" and "n = length (entries d) - loc d"
    and "loc d \<le> length (entries d)"
  shows "readdir_loop fill_dir b c d e =
     (if room b < n
      then (\<lparr>room = 0, got = got b @ take (room b) (dir_listing d (loc d))\<rparr>,
            c\<lparr>entry := Some (entries d ! (loc d + room b)),
              offset := (if room b = 0 then offset c else tell d (loc d + room b))\<rparr>,
            d\<lparr>loc := Suc (loc d + room b)\<rparr>, e)
      else (\<lparr>room = room b - n, got = got b @ dir_listing d (loc d)\<rparr>,
            c\<lparr>offset := (if 0 < n then tell d (length (entries d)) else offset c)\<rparr>,
            d\<lparr>loc := length (entries d)\<rparr>, e))"
  using assms
proof (induction n arbitrary: b c d)
  case 0
  then have "readdir_sys d e = (None, d, e)"
    by (simp add: readdir_sys_def)
  with 0 show ?case
    by (simp add: readdir_loop_end dir_listing_Nil)
next
  case (Suc n)
  let ?x = "entries d ! loc d"
  let ?d = "d\<lparr>loc := Suc (loc d)\<rparr>"
  from Suc.prems have lt: "loc d < length (entries d)" by simp
  with Suc.prems have rd: "readdir_sys d e = (Some ?x, ?d, e)"
    by (simp add: readdir_sys_def)
  have step: "readdir_loop fill_dir b c d e =
      readdir_loop fill_dir b (c\<lparr>entry := Some ?x\<rparr>) ?d e"
    by (rule readdir_loop_read [OF Suc.prems(2) rd])
  show ?case
  proof (cases "room b")
    case 0
    then show ?thesis
      using step lt
      by (simp add: readdir_loop_Some [of "c\<lparr>entry := Some ?x\<rparr>" ?x] fill_dir_full dirbuf_eq)
  next
    case (Suc m)
    let ?b = "\<lparr>room = m, got = got b @ [(d_name ?x, dirent_stat ?x, tell d (Suc (loc d)))]\<rparr>"
    let ?c = "c\<lparr>entry := None, offset := tell d (Suc (loc d))\<rparr>"
    have "readdir_loop fill_dir b c d e = readdir_loop fill_dir ?b ?c ?d e"
      using step Suc Suc.prems(2)
      by (simp add: readdir_loop_Some [of "c\<lparr>entry := Some ?x\<rparr>" ?x] fill_dir_room
          telldir_sys_def)
    also have "\<dots> =
     (if room ?b < n
      then (\<lparr>room = 0, got = got ?b @ take (room ?b) (dir_listing ?d (loc ?d))\<rparr>,
            ?c\<lparr>entry := Some (entries ?d ! (loc ?d + room ?b)),
              offset := (if room ?b = 0 then offset ?c else tell ?d (loc ?d + room ?b))\<rparr>,
            ?d\<lparr>loc := Suc (loc ?d + room ?b)\<rparr>, e)
      else (\<lparr>room = room ?b - n, got = got ?b @ dir_listing ?d (loc ?d)\<rparr>,
            ?c\<lparr>offset := (if 0 < n then tell ?d (length (entries ?d)) else offset ?c)\<rparr>,
            ?d\<lparr>loc := length (entries ?d)\<rparr>, e))"
      using Suc.prems lt by (intro Suc.IH) simp_all
    finally have run: "readdir_loop fill_dir b c d e =
     (if m < n
      then (\<lparr>room = 0, got = got b @ take (Suc m) (dir_listing d (loc d))\<rparr>,
            ?c\<lparr>entry := Some (entries d ! (Suc (loc d) + m)),
              offset := (if m = 0 then tell d (Suc (loc d)) else tell d (Suc (loc d) + m))\<rparr>,
            d\<lparr>loc := Suc (Suc (loc d) + m)\<rparr>, e)
      else (\<lparr>room = m - n, got = got b @ dir_listing d (loc d)\<rparr>,
            ?c\<lparr>offset := (if 0 < n then tell d (length (entries d))
                           else tell d (Suc (loc d)))\<rparr>,
            d\<lparr>loc := length (entries d)\<rparr>, e))"
      using lt by (simp add: dir_listing_Cons [of "loc d" d])
    have last: "n = 0 \<Longrightarrow> Suc (loc d) = length (entries d)"
      using Suc.prems(3) lt by simp
    have clean: "?c\<lparr>offset := t\<rparr> = c\<lparr>offset := t\<rparr>" for t
      using Suc.prems(2) by simp
    show ?thesis
      using Suc last by (simp add: run clean)
  qed
qed

text \<open>A cursor that holds the entry it read last behaves as one that has not read it.\<close>

lemma readdir_loop_cached:
  assumes "entry c = Some (entries d ! j)" and "loc d = Suc j" and "j < length (entries d)"
    and "broken d = None"
  shows "readdir_loop f b c d e = readdir_loop f b (c\<lparr>entry := None\<rparr>) (d\<lparr>loc := j\<rparr>) e"
proof -
  have d: "d\<lparr>loc := j\<rparr>\<lparr>loc := Suc j\<rparr> = d"
    using assms(2) by simp
  have "readdir_sys (d\<lparr>loc := j\<rparr>) e = (Some (entries d ! j), d, e)"
    using assms(3,4) d by (simp add: readdir_sys_def)
  then have "readdir_loop f b (c\<lparr>entry := None\<rparr>) (d\<lparr>loc := j\<rparr>) e =
      readdir_loop f b (c\<lparr>entry := None\<rparr>\<lparr>entry := Some (entries d ! j)\<rparr>) d e"
    by (intro readdir_loop_read) simp_all
  also have "c\<lparr>entry := None\<rparr>\<lparr>entry := Some (entries d ! j)\<rparr> = c"
    using assms(1) by simp
  finally show ?thesis by simp
qed

text \<open>The program keeps the cached entry the entry read last.\<close>

lemma readdir_loop_keeps_cached:
  "cached_is_last_read c d \<Longrightarrow> readdir_loop f b c d e = (b', c', d', e') \<Longrightarrow>
   cached_is_last_read c' d' \<and> dir c' = dir c"
proof (induction f b c d e rule: readdir_loop.induct)
  case (1 filler buffer dirInfo d e)
  show ?case
  proof (cases "entry dirInfo")
    case (Some x)
    obtain full b1 where fl: "filler buffer (d_name x) (dirent_stat x) (telldir_sys d) = (full, b1)"
      by (cases "filler buffer (d_name x) (dirent_stat x) (telldir_sys d)") auto
    show ?thesis
    proof (cases "full = 0")
      case False
      with "1.prems" Some fl show ?thesis
        by (simp add: readdir_loop_Some [OF Some])
    next
      case True
      have ok: "cached_is_last_read (dirInfo\<lparr>entry := None, offset := telldir_sys d\<rparr>) d"
        by (simp add: cached_is_last_read_def)
      from "1.prems"(2) Some fl True
      have run: "readdir_loop filler b1 (dirInfo\<lparr>entry := None, offset := telldir_sys d\<rparr>) d e =
          (b', c', d', e')"
        by (simp add: readdir_loop_Some [OF Some])
      from Some fl True
      have "cached_is_last_read c' d' \<and>
          dir c' = dir (dirInfo\<lparr>entry := None, offset := telldir_sys d\<rparr>)"
        by (intro "1.IH" [OF _ _ _ _ _ _ _ _ _ ok run]) (auto simp: Let_def)
      then show ?thesis by simp
    qed
  next
    case None
    obtain r d1 e1 where rd: "readdir_sys d e = (r, d1, e1)"
      by (cases "readdir_sys d e") auto
    show ?thesis
    proof (cases r)
      case rNone: None
      with "1.prems" None rd show ?thesis
        by (simp add: readdir_loop_end cached_is_last_read_def)
    next
      case (Some x)
      with rd have rd': "readdir_sys d e = (Some x, d1, e1)" by simp
      then have held: "cached_is_last_read (dirInfo\<lparr>entry := Some x\<rparr>) d1"
        by (auto simp: readdir_sys_def cached_is_last_read_def split: option.splits if_splits)
      let ?c = "dirInfo\<lparr>entry := Some x\<rparr>"
      have cached: "entry ?c = Some x" by simp
      from "1.prems"(2) have run0: "readdir_loop filler buffer ?c d1 e1 = (b', c', d', e')"
        by (simp add: readdir_loop_read [OF None rd'])
      obtain full b1 where
        fl: "filler buffer (d_name x) (dirent_stat x) (telldir_sys d1) = (full, b1)"
        by (cases "filler buffer (d_name x) (dirent_stat x) (telldir_sys d1)") auto
      show ?thesis
      proof (cases "full = 0")
        case False
        with run0 fl held show ?thesis
          by (auto simp: readdir_loop_Some [OF cached])
      next
        case True
        have ok: "cached_is_last_read (?c\<lparr>entry := None, offset := telldir_sys d1\<rparr>) d1"
          by (simp add: cached_is_last_read_def)
        from run0 fl True
        have run: "readdir_loop filler b1 (?c\<lparr>entry := None, offset := telldir_sys d1\<rparr>) d1 e1 =
            (b', c', d', e')"
          by (simp add: readdir_loop_Some [OF cached])
        from None rd' fl True
        have "cached_is_last_read c' d' \<and>
            dir c' = dir (?c\<lparr>entry := None, offset := telldir_sys d1\<rparr>)"
          by (intro "1.IH" [OF _ _ _ _ _ _ _ _ _ ok run]) (auto simp: Let_def)
        then show ?thesis by simp
      qed
    qed
  qed
qed


lemma logfuse_opendir_cached:
  assumes "fs path = Inr (p, d)" and "p \<noteq> 0" and "mem \<noteq> 0"
    and "logfuse_opendir fs mem path fileInfo w = (r, fileInfo', w')"
  shows "\<exists>dirInfo. logfuse_get_dir fileInfo' w' = Some dirInfo \<and>
    dirs w' (dir dirInfo) = Some d \<and> cached_is_last_read dirInfo d"
  using assms
  by (auto simp: logfuse_opendir_def opendir_sys_def malloc_sys_def logfuse_get_dir_def
      cached_is_last_read_def)

lemma logfuse_readdir_cached:
  assumes "logfuse_get_dir fileInfo w = Some dirInfo" and "dirs w (dir dirInfo) = Some d"
    and "cached_is_last_read dirInfo d"
    and "logfuse_readdir f b off fileInfo w = Some (r, b', w')"
  shows "\<exists>dirInfo' d'. logfuse_get_dir fileInfo w' = Some dirInfo' \<and>
    dirs w' (dir dirInfo') = Some d' \<and> cached_is_last_read dirInfo' d'"
proof -
  define c0 where
    "c0 = (if off \<noteq> offset dirInfo then dirInfo\<lparr>entry := None, offset := off\<rparr> else dirInfo)"
  define d0 where "d0 = (if off \<noteq> offset dirInfo then seekdir_sys d off else d)"
  obtain b1 c1 d1 e1 where loop: "readdir_loop f b c0 d0 (errno w) = (b1, c1, d1, e1)"
    by (cases "readdir_loop f b c0 d0 (errno w)") auto
  have "cached_is_last_read c0 d0"
    using assms(3) by (simp add: c0_def d0_def cached_is_last_read_def)
  from readdir_loop_keeps_cached [OF this loop]
  have keep: "cached_is_last_read c1 d1" and same: "dir c1 = dir dirInfo"
    by (simp_all add: c0_def)
  from assms(1,2,4) loop
  have "w' = w\<lparr>errno := e1, dirs := (dirs w)(dir dirInfo \<mapsto> d1),
      heap := (heap w)(fh fileInfo \<mapsto> c1)\<rparr>"
    by (auto simp: logfuse_readdir_def c0_def d0_def split: if_splits)
  with keep same show ?thesis
    by (simp add: logfuse_get_dir_def)
qed

lemma world_b_cached_valid:
  "logfuse_get_dir dirfile world_b_cached = Some cursor_b"
  "dirs world_b_cached (dir cursor_b) = Some (dir_abc\<lparr>loc := 2\<rparr>)"
  "broken (dir_abc\<lparr>loc := 2\<rparr>) = None"
  "cached_is_last_read cursor_b (dir_abc\<lparr>loc := 2\<rparr>)"
  "read_start cursor_b (dir_abc\<lparr>loc := 2\<rparr>) 10 = 1"
  by (simp_all add: logfuse_get_dir_def dirfile_def world_b_cached_def cursor_b_def dir_abc_def
      cached_is_last_read_def read_start_def)

lemma world_abc_start:
  "cached_is_last_read cursor0 dir_abc" "read_start cursor0 dir_abc 0 = 0"
  by (simp_all add: cached_is_last_read_def read_start_def cursor0_def dir_abc_def)

lemma dir_listing_abc_1:
  "dir_listing dir_abc (Suc 0) =
     [(''b'', \<lparr>st_ino = 12, st_mode = 32768\<rparr>, 20),
      (''c'', \<lparr>st_ino = 13, st_mode = 16384\<rparr>, 30)]"
  using drop_dir_listing [of 1 dir_abc 0] by (simp add: dir_listing_abc)

lemma first_page_abc:
  "logfuse_readdir fill_dir \<lparr>room = 1, got = []\<rparr> 0 dirfile world_abc =
     Some (0, \<lparr>room = 0, got = [(''a'', \<lparr>st_ino = 11, st_mode = 32768\<rparr>, 10)]\<rparr>,
           world_b_cached)"
proof -
  have "readdir_loop fill_dir \<lparr>room = 1, got = []\<rparr> cursor0 dir_abc 0 =
      (\<lparr>room = 0, got = take 1 (dir_listing dir_abc 0)\<rparr>,
       cursor0\<lparr>entry := Some (entries dir_abc ! 1), offset := tell dir_abc 1\<rparr>,
       dir_abc\<lparr>loc := 2\<rparr>, 0)"
    using readdir_loop_fill [of dir_abc cursor0 3 "\<lparr>room = 1, got = []\<rparr>" 0]
    by (simp add: world_abc_valid) (simp add: dir_abc_def)
  then show ?thesis
    by (simp add: logfuse_readdir_def world_abc_valid dir_listing_abc)
      (simp add: world_abc_def world_b_cached_def cursor0_def dir_abc_def dirfile_def)
qed

text \<open>
  C4. Any cursor the program has built (its cached entry, if it holds one, is the entry
  its stream read last; \<open>logfuse_opendir_cached\<close> and \<open>logfuse_readdir_cached\<close> show
  that opening establishes this and every Read keeps it), on a stream that reads without
  error, and a Read at any offset \<open>off\<close>. The enumeration starts at the index
  \<open>read_start dirInfo d off\<close>, and the listing from there is what is left to
  enumerate, \<open>N\<close> entries; for a new cursor and \<open>off = 0\<close> that is the whole
  directory, for a cursor that holds an entry it starts with that entry. When the
  filler takes \<open>k < N\<close> entries and then reports that it is full, the Read returns
  \<open>0\<close> having handed over the first \<open>k\<close>; the cursor then holds the entry that was
  refused, and its offset is the next offset that was handed over with the \<open>k\<close>-th
  entry (\<open>off\<close>, when \<open>k = 0\<close>): it is not moved past the cached entry. A second Read
  at that offset, with room for the rest, hands over exactly the entries after the first
  \<open>k\<close>, in order. The state the first Read leaves meets the hypotheses again, with the
  entries after the first \<open>k\<close> as its listing, so the same holds for the page after
  it, and for every page.
\<close>

theorem readdir_resume:
  assumes cur: "logfuse_get_dir fileInfo w = Some dirInfo"
    and str: "dirs w (dir dirInfo) = Some d"
    and ok: "broken d = None"
    and held: "cached_is_last_read dirInfo d"
    and k: "k < length (dir_listing d (read_start dirInfo d off))"
  shows "\<exists>b1 w1 dirInfo1 d1.
      logfuse_readdir fill_dir \<lparr>room = k, got = []\<rparr> off fileInfo w = Some (0, b1, w1) \<and>
      got b1 = take k (dir_listing d (read_start dirInfo d off)) \<and>
      logfuse_get_dir fileInfo w1 = Some dirInfo1 \<and>
      entry dirInfo1 = Some (entries d ! (read_start dirInfo d off + k)) \<and>
      offset dirInfo1 = (if k = 0 then off else snd (snd (last (got b1)))) \<and>
      dirs w1 (dir dirInfo1) = Some d1 \<and> broken d1 = None \<and>
      cached_is_last_read dirInfo1 d1 \<and>
      dir_listing d1 (read_start dirInfo1 d1 (offset dirInfo1)) =
        drop k (dir_listing d (read_start dirInfo d off)) \<and>
      (\<forall>m. length (dir_listing d (read_start dirInfo d off)) - k \<le> m \<longrightarrow>
         (\<exists>b2 w2.
            logfuse_readdir fill_dir \<lparr>room = m, got = []\<rparr> (offset dirInfo1) fileInfo w1 =
              Some (0, b2, w2) \<and>
            got b2 = drop k (dir_listing d (read_start dirInfo d off))))"
proof -
  define i where "i = read_start dirInfo d off"
  let ?N = "length (entries d)"
  let ?j = "i + k"
  define c0 where
    "c0 = (if off \<noteq> offset dirInfo then dirInfo\<lparr>entry := None, offset := off\<rparr>
           else dirInfo\<lparr>entry := None\<rparr>)"
  define d0 where "d0 = d\<lparr>loc := i\<rparr>"
  let ?c1 = "dirInfo\<lparr>entry := Some (entries d ! ?j),
    offset := (if k = 0 then off else tell d ?j)\<rparr>"
  let ?d1 = "d\<lparr>loc := Suc ?j\<rparr>"
  let ?b1 = "\<lparr>room = 0, got = take k (dir_listing d i)\<rparr>"
  let ?w1 = "w\<lparr>errno := errno w, dirs := (dirs w)(dir dirInfo \<mapsto> ?d1),
    heap := (heap w)(fh fileInfo \<mapsto> ?c1)\<rparr>"
  from k have j: "?j < ?N" and le: "i \<le> ?N" by (simp_all add: i_def)
  have c0: "entry c0 = None" "offset c0 = off"
    "c0\<lparr>entry := x, offset := t\<rparr> = dirInfo\<lparr>entry := x, offset := t\<rparr>" for x t
    by (auto simp: c0_def)
  have d0: "broken d0 = None" "loc d0 = i" "entries d0 = entries d" "tell d0 = tell d"
    "d0\<lparr>loc := n\<rparr> = d\<lparr>loc := n\<rparr>" "dir_listing d0 = dir_listing d" for n
    using ok by (auto simp: d0_def fun_eq_iff)
  have start: "readdir_loop f b
      (if off \<noteq> offset dirInfo then dirInfo\<lparr>entry := None, offset := off\<rparr> else dirInfo)
      (if off \<noteq> offset dirInfo then seekdir_sys d off else d) e =
      readdir_loop f b c0 d0 e" for f :: "dirbuf fuse_fill_dir_t" and b e
  proof (cases "off \<noteq> offset dirInfo")
    case True
    then show ?thesis
      by (simp add: c0_def d0_def i_def read_start_def seekdir_sys_def)
  next
    case same: False
    show ?thesis
    proof (cases "entry dirInfo")
      case None
      then have eq: "dirInfo\<lparr>entry := None\<rparr> = dirInfo"
        by simp
      from same None show ?thesis
        by (simp add: c0_def d0_def i_def read_start_def eq)
    next
      case (Some x)
      with held have h: "0 < loc d" "loc d \<le> ?N" "entries d ! (loc d - 1) = x"
        by (simp_all add: cached_is_last_read_def)
      from same Some have i: "i = loc d - 1"
        by (simp add: i_def read_start_def)
      have "readdir_loop f b dirInfo d e =
          readdir_loop f b (dirInfo\<lparr>entry := None\<rparr>) (d\<lparr>loc := i\<rparr>) e"
        using Some h i ok by (intro readdir_loop_cached) simp_all
      with same show ?thesis
        by (simp add: c0_def d0_def)
    qed
  qed
  have unfold: "logfuse_readdir fill_dir b off fileInfo w =
      (case readdir_loop fill_dir b c0 d0 (errno w) of
         (b', c', d', e') \<Rightarrow>
           Some (0, b', w\<lparr>errno := e', dirs := (dirs w)(dir dirInfo \<mapsto> d'),
                   heap := (heap w)(fh fileInfo \<mapsto> c')\<rparr>))" for b
    using cur str start [of fill_dir b "errno w"]
    by (simp add: logfuse_readdir_def split: if_splits)
  have loop1: "readdir_loop fill_dir \<lparr>room = k, got = []\<rparr> c0 d0 (errno w) =
      (?b1, ?c1, ?d1, errno w)"
    using k le by (subst readdir_loop_fill [where n = "?N - i"]) (simp_all add: c0 d0 i_def)
  have read1: "logfuse_readdir fill_dir \<lparr>room = k, got = []\<rparr> off fileInfo w =
      Some (0, ?b1, ?w1)"
    by (simp add: unfold loop1)
  have cur1: "logfuse_get_dir fileInfo ?w1 = Some ?c1"
    by (simp add: logfuse_get_dir_def)
  have off1: "offset ?c1 = (if k = 0 then off else snd (snd (last (got ?b1))))"
    using k by (simp add: last_take_dir_listing i_def)
  have str1: "dirs ?w1 (dir ?c1) = Some ?d1" "broken ?d1 = None"
    using ok by simp_all
  have held1: "cached_is_last_read ?c1 ?d1"
    using j by (simp add: cached_is_last_read_def)
  have next1: "dir_listing ?d1 (read_start ?c1 ?d1 (offset ?c1)) = drop k (dir_listing d i)"
    by (simp add: read_start_def drop_dir_listing)
  have read2: "\<exists>b2 w2.
        logfuse_readdir fill_dir \<lparr>room = m, got = []\<rparr> (offset ?c1) fileInfo ?w1 =
          Some (0, b2, w2) \<and>
        got b2 = drop k (dir_listing d i)"
    if m: "length (dir_listing d i) - k \<le> m" for m
  proof -
    have "readdir_loop fill_dir \<lparr>room = m, got = []\<rparr> ?c1 ?d1 (errno w) =
        readdir_loop fill_dir \<lparr>room = m, got = []\<rparr> (?c1\<lparr>entry := None\<rparr>) (?d1\<lparr>loc := ?j\<rparr>)
          (errno w)"
      using j ok by (intro readdir_loop_cached) simp_all
    also have "\<dots> = (\<lparr>room = m - (?N - ?j), got = dir_listing d ?j\<rparr>,
        ?c1\<lparr>entry := None, offset := tell d ?N\<rparr>, d\<lparr>loc := ?N\<rparr>, errno w)"
      using j ok m by (subst readdir_loop_fill [where n = "?N - ?j"]) simp_all
    finally have loop2: "readdir_loop fill_dir \<lparr>room = m, got = []\<rparr> ?c1 ?d1 (errno w) =
        (\<lparr>room = m - (?N - ?j), got = dir_listing d ?j\<rparr>,
         ?c1\<lparr>entry := None, offset := tell d ?N\<rparr>, d\<lparr>loc := ?N\<rparr>, errno w)" .
    show ?thesis
      by (simp add: logfuse_readdir_def logfuse_get_dir_def loop2 drop_dir_listing)
  qed
  from read1 cur1 off1 str1 held1 next1 read2 show ?thesis
    unfolding i_def [symmetric]
    by (intro exI [of _ ?b1] exI [of _ ?w1] exI [of _ ?c1] exI [of _ ?d1]) simp
qed

theorem readdir_resume_witness:
  "logfuse_get_dir dirfile world_abc = Some cursor0 \<and>
   dirs world_abc (dir cursor0) = Some dir_abc \<and> broken dir_abc = None \<and>
   cached_is_last_read cursor0 dir_abc \<and>
   (1::nat) < length (dir_listing dir_abc (read_start cursor0 dir_abc 0)) \<and>
   logfuse_readdir fill_dir \<lparr>room = 1, got = []\<rparr> 0 dirfile world_abc =
     Some (0, \<lparr>room = 0, got = [(''a'', \<lparr>st_ino = 11, st_mode = 32768\<rparr>, 10)]\<rparr>,
           world_b_cached) \<and>
   logfuse_get_dir dirfile world_b_cached = Some cursor_b \<and>
   dirs world_b_cached (dir cursor_b) = Some (dir_abc\<lparr>loc := 2\<rparr>) \<and>
   broken (dir_abc\<lparr>loc := 2\<rparr>) = None \<and>
   cached_is_last_read cursor_b (dir_abc\<lparr>loc := 2\<rparr>) \<and>
   (1::nat) < length (dir_listing (dir_abc\<lparr>loc := 2\<rparr>)
       (read_start cursor_b (dir_abc\<lparr>loc := 2\<rparr>) 10)) \<and>
   (\<exists>b1 w1 dirInfo1.
      logfuse_readdir fill_dir \<lparr>room = 1, got = []\<rparr> 10 dirfile world_b_cached =
        Some (0, b1, w1) \<and>
      got b1 = [(''b'', \<lparr>st_ino = 12, st_mode = 32768\<rparr>, 20)] \<and>
      logfuse_get_dir dirfile w1 = Some dirInfo1 \<and>
      entry dirInfo1 = Some \<lparr>d_ino = 13, d_type = 4, d_name = ''c''\<rparr> \<and>
      offset dirInfo1 = 20 \<and>
      (\<exists>b2 w2.
         logfuse_readdir fill_dir \<lparr>room = 5, got = []\<rparr> 20 dirfile w1 = Some (0, b2, w2) \<and>
         got b2 = [(''c'', \<lparr>st_ino = 13, st_mode = 16384\<rparr>, 30)]))"
proof -
  have k0: "(1::nat) < length (dir_listing dir_abc (read_start cursor0 dir_abc 0))"
    unfolding world_abc_start(2) by (simp add: dir_abc_def)
  from readdir_resume [OF world_abc_valid(1-3) world_abc_start(1) k0]
  have page1: "\<exists>b1 w1. logfuse_readdir fill_dir \<lparr>room = 1, got = []\<rparr> 0 dirfile world_abc =
      Some (0, b1, w1)"
    by blast
  have k: "(1::nat) < length (dir_listing (dir_abc\<lparr>loc := 2\<rparr>)
      (read_start cursor_b (dir_abc\<lparr>loc := 2\<rparr>) 10))"
    unfolding world_b_cached_valid(5) by (simp add: dir_abc_def)
  from readdir_resume [OF world_b_cached_valid(1-4) k]
  obtain b1 w1 dirInfo1 where
    r1: "logfuse_readdir fill_dir \<lparr>room = 1, got = []\<rparr> 10 dirfile world_b_cached =
      Some (0, b1, w1)"
    and g1: "got b1 = take 1 (dir_listing (dir_abc\<lparr>loc := 2\<rparr>)
      (read_start cursor_b (dir_abc\<lparr>loc := 2\<rparr>) 10))"
    and c1: "logfuse_get_dir dirfile w1 = Some dirInfo1"
    and e1: "entry dirInfo1 = Some (entries (dir_abc\<lparr>loc := 2\<rparr>) !
      (read_start cursor_b (dir_abc\<lparr>loc := 2\<rparr>) 10 + 1))"
    and o1: "offset dirInfo1 = (if (1::nat) = 0 then 10 else snd (snd (last (got b1))))"
    and r2: "\<forall>m. length (dir_listing (dir_abc\<lparr>loc := 2\<rparr>)
            (read_start cursor_b (dir_abc\<lparr>loc := 2\<rparr>) 10)) - 1 \<le> m \<longrightarrow>
         (\<exists>b2 w2.
            logfuse_readdir fill_dir \<lparr>room = m, got = []\<rparr> (offset dirInfo1) dirfile w1 =
              Some (0, b2, w2) \<and>
            got b2 = drop 1 (dir_listing (dir_abc\<lparr>loc := 2\<rparr>)
              (read_start cursor_b (dir_abc\<lparr>loc := 2\<rparr>) 10)))"
    by blast
  from g1 have g1': "got b1 = [(''b'', \<lparr>st_ino = 12, st_mode = 32768\<rparr>, 20)]"
    unfolding world_b_cached_valid(5) by (simp add: dir_listing_abc_1)
  from o1 g1' have o1': "offset dirInfo1 = 20" by simp
  from e1 have e1': "entry dirInfo1 = Some \<lparr>d_ino = 13, d_type = 4, d_name = ''c''\<rparr>"
    unfolding world_b_cached_valid(5) by (simp add: dir_abc_def)
  from r2 [unfolded world_b_cached_valid(5), rule_format, of 5] o1'
  have r2': "\<exists>b2 w2.
      logfuse_readdir fill_dir \<lparr>room = 5, got = []\<rparr> 20 dirfile w1 = Some (0, b2, w2) \<and>
      got b2 = [(''c'', \<lparr>st_ino = 13, st_mode = 16384\<rparr>, 30)]"
    by (simp add: dir_listing_abc_1)
  have hyps: "logfuse_get_dir dirfile world_abc = Some cursor0"
    "dirs world_abc (dir cursor0) = Some dir_abc" "broken dir_abc = None"
    "cached_is_last_read cursor0 dir_abc"
    "logfuse_get_dir dirfile world_b_cached = Some cursor_b"
    "dirs world_b_cached (dir cursor_b) = Some (dir_abc\<lparr>loc := 2\<rparr>)"
    "broken (dir_abc\<lparr>loc := 2\<rparr>) = None"
    "cached_is_last_read cursor_b (dir_abc\<lparr>loc := 2\<rparr>)"
    by (rule world_abc_valid world_abc_start world_b_cached_valid)+
  from r1 g1' c1 e1' o1' r2'
  have page2: "\<exists>b1 w1 dirInfo1.
      logfuse_readdir fill_dir \<lparr>room = 1, got = []\<rparr> 10 dirfile world_b_cached =
        Some (0, b1, w1) \<and>
      got b1 = [(''b'', \<lparr>st_ino = 12, st_mode = 32768\<rparr>, 20)] \<and>
      logfuse_get_dir dirfile w1 = Some dirInfo1 \<and>
      entry dirInfo1 = Some \<lparr>d_ino = 13, d_type = 4, d_name = ''c''\<rparr> \<and>
      offset dirInfo1 = 20 \<and>
      (\<exists>b2 w2.
         logfuse_readdir fill_dir \<lparr>room = 5, got = []\<rparr> 20 dirfile w1 = Some (0, b2, w2) \<and>
         got b2 = [(''c'', \<lparr>st_ino = 13, st_mode = 16384\<rparr>, 30)])"
    by blast
  from page1 hyps k0 k first_page_abc page2 show ?thesis
    by (intro conjI)
qed

end
